theory Spec2Isabelle
  imports Complex_Main "HOL-Library.Sublist" "HOL-Library.Multiset"
begin

section \<open>Retrieval-augmented answering: the chunker, the index store, the retriever\<close>

text \<open>
  The development follows \<^verbatim>\<open>backend/rag.py\<close>. Python's \<^verbatim>\<open>str\<close> is modelled as
  \<^typ>\<open>string\<close>, one \<^typ>\<open>char\<close> per code point (code points below 256), Python's
  unbounded \<^verbatim>\<open>int\<close> as \<^typ>\<open>int\<close>, and \<^verbatim>\<open>float\<close> as \<^typ>\<open>real\<close>: rounding,
  overflow and NaN are outside the model. Console output (\<^verbatim>\<open>print\<close>) is not modelled.
\<close>

subsection \<open>String primitives of the language\<close>

text \<open>\<^verbatim>\<open>str.isspace\<close> on one code point below 256.\<close>

definition is_space :: "char \<Rightarrow> bool" where
  "is_space c =
     (let n = (of_char c :: nat)
      in (9 \<le> n \<and> n \<le> 13) \<or> (28 \<le> n \<and> n \<le> 32) \<or> n = 133 \<or> n = 160)"

text \<open>
  \<^verbatim>\<open>text.split()\<close>: the maximal runs of non-whitespace characters, in order. The first
  argument is the word read so far.
\<close>

fun split_acc :: "string \<Rightarrow> string \<Rightarrow> string list" where
  "split_acc w [] = (if w = [] then [] else [w])"
| "split_acc w (c # cs) =
     (if is_space c then (if w = [] then split_acc [] cs else w # split_acc [] cs)
      else split_acc (w @ [c]) cs)"

definition py_split :: "string \<Rightarrow> string list" where
  "py_split s = split_acc [] s"

text \<open>\<^verbatim>\<open>sep.join(ws)\<close> and \<^verbatim>\<open>s.strip()\<close>.\<close>

fun py_join :: "string \<Rightarrow> string list \<Rightarrow> string" where
  "py_join sep [] = []"
| "py_join sep [w] = w"
| "py_join sep (w # ws) = w @ sep @ py_join sep ws"

definition py_strip :: "string \<Rightarrow> string" where
  "py_strip s = dropWhile is_space (rev (dropWhile is_space (rev s)))"

subsection \<open>The chunker\<close>

text \<open>\<^verbatim>\<open>sum(len(w) + 1 for w in ws)\<close>.\<close>

definition words_len :: "string list \<Rightarrow> int" where
  "words_len ws = sum_list (map (\<lambda>w. int (length w) + 1) ws)"

text \<open>
  The inner loop of \<^verbatim>\<open>_split_text_into_chunks\<close>:
  \<^verbatim>\<open>while current and sum(len(w) + 1 for w in overlap_words) < overlap:
      overlap_words.insert(0, current.pop())\<close>
  It returns what is left of \<^verbatim>\<open>current\<close> and \<^verbatim>\<open>overlap_words\<close>.
\<close>

function overlap_loop :: "string list \<Rightarrow> string list \<Rightarrow> int \<Rightarrow> string list \<times> string list" where
  "overlap_loop current overlap_words overlap =
     (if current \<noteq> [] \<and> words_len overlap_words < overlap
      then overlap_loop (butlast current) (last current # overlap_words) overlap
      else (current, overlap_words))"
  by pat_completeness auto
termination
  by (relation "measure (\<lambda>(current, overlap_words, overlap). length current)") auto

declare overlap_loop.simps [simp del]

record chunker_state =
  chunks :: "string list"
  current :: "string list"
  current_len :: int

text \<open>
  The branch taken when a chunk is closed: the chunk is appended to the output and the
  buffer is seeded for the next chunk.
\<close>

definition close_chunk :: "int \<Rightarrow> chunker_state \<Rightarrow> chunker_state" where
  "close_chunk overlap st =
     (let chunk = py_strip (py_join '' '' (current st));
          chunks' = chunks st @ [chunk]
      in if overlap > 0
         then (let overlap_words = snd (overlap_loop (current st) [] overlap)
               in \<lparr>chunks = chunks', current = overlap_words,
                    current_len = words_len overlap_words\<rparr>)
         else \<lparr>chunks = chunks', current = [], current_len = 0\<rparr>)"

text \<open>The condition under which the loop body closes the current chunk before \<open>word\<close>.\<close>

definition closes :: "int \<Rightarrow> chunker_state \<Rightarrow> string \<Rightarrow> bool" where
  "closes max_chars st word =
     (let add_len = int (length word) + (if current st \<noteq> [] then 1 else 0)
      in current_len st + add_len > max_chars \<and> current st \<noteq> [])"

text \<open>One iteration of \<^verbatim>\<open>for word in words\<close>; \<open>add_len\<close> is computed before the chunk is closed.\<close>

definition chunk_step :: "int \<Rightarrow> int \<Rightarrow> chunker_state \<Rightarrow> string \<Rightarrow> chunker_state" where
  "chunk_step max_chars overlap st word =
     (let add_len = int (length word) + (if current st \<noteq> [] then 1 else 0);
          st1 = (if closes max_chars st word then close_chunk overlap st else st)
      in \<lparr>chunks = chunks st1, current = current st1 @ [word],
           current_len = current_len st1 + add_len\<rparr>)"

definition split_text_into_chunks :: "string \<Rightarrow> int \<Rightarrow> int \<Rightarrow> string list" where
  "split_text_into_chunks text max_chars overlap =
     (let st = foldl (chunk_step max_chars overlap)
                 \<lparr>chunks = [], current = [], current_len = 0\<rparr> (py_split text)
      in if current st \<noteq> [] then chunks st @ [py_strip (py_join '' '' (current st))]
         else chunks st)"

subsection \<open>Errors and external capabilities\<close>

text \<open>The exceptions that the code raises itself or that reach it from a call it makes.\<close>

datatype error =
  FileNotFoundError
  | ProviderError string
  | IndexError
  | KeyError string
  | TypeError
  | JSONDecodeError
  | ValueError
  | ZeroDivisionError
  | AttributeError

text \<open>
  The embedding capability, \<^verbatim>\<open>client.embeddings.create(model=..., input=...)\<close>: it raises, or
  returns the list \<^verbatim>\<open>resp.data\<close> of embeddings. It is taken as a function of its arguments.
\<close>

type_synonym embeddings_api = "string \<Rightarrow> string \<Rightarrow> error + real list list"

definition EMBEDDING_MODEL :: string where
  "EMBEDDING_MODEL = ''text-embedding-3-small''"

definition CHAT_MODEL :: string where
  "CHAT_MODEL = ''gpt-4o-mini''"

text \<open>\<^verbatim>\<open>_embed_text\<close>: \<^verbatim>\<open>resp.data[0].embedding\<close> raises on an empty \<^verbatim>\<open>data\<close>.\<close>

definition embed_text :: "embeddings_api \<Rightarrow> string \<Rightarrow> error + real list" where
  "embed_text create txt =
     (case create EMBEDDING_MODEL txt of
        Inl e \<Rightarrow> Inl e
      | Inr data \<Rightarrow> (case data of [] \<Rightarrow> Inl IndexError | d # _ \<Rightarrow> Inr d))"

subsection \<open>Cosine similarity\<close>

text \<open>\<^verbatim>\<open>math.sqrt\<close> raises on a negative argument; \<^verbatim>\<open>/\<close> raises on a zero divisor.\<close>

definition math_sqrt :: "real \<Rightarrow> error + real" where
  "math_sqrt x = (if x < 0 then Inl ValueError else Inr (sqrt x))"

definition truediv :: "real \<Rightarrow> real \<Rightarrow> error + real" where
  "truediv x y = (if y = 0 then Inl ZeroDivisionError else Inr (x / y))"

definition cosine_similarity :: "real list \<Rightarrow> real list \<Rightarrow> error + real" where
  "cosine_similarity a b =
     (let dot = sum_list (map (\<lambda>(x, y). x * y) (zip a b))
      in case math_sqrt (sum_list (map (\<lambda>x. x * x) a)) of
           Inl e \<Rightarrow> Inl e
         | Inr norm_a \<Rightarrow>
             (case math_sqrt (sum_list (map (\<lambda>y. y * y) b)) of
                Inl e \<Rightarrow> Inl e
              | Inr norm_b \<Rightarrow>
                  if norm_a = 0 \<or> norm_b = 0 then Inr 0
                  else truediv dot (norm_a * norm_b)))"

subsection \<open>The index store\<close>

record chunk =
  chunk_id :: int
  chunk_text :: string
  embedding :: "real list"

text \<open>
  The values of \<^verbatim>\<open>json.dumps\<close> and \<^verbatim>\<open>json.loads\<close>; an object is the list of its items
  in insertion order.
\<close>

datatype json =
  JNull
  | JBool bool
  | JInt int
  | JFloat real
  | JStr string
  | JArr "json list"
  | JObj "(string \<times> json) list"

text \<open>
  The text of a file that is read with \<^verbatim>\<open>json.loads\<close>: either \<open>Dumped j\<close>, the text
  that \<^verbatim>\<open>json.dumps\<close> writes for \<open>j\<close> and that \<^verbatim>\<open>json.loads\<close> reads back as \<open>j\<close>, or
  \<open>Malformed\<close>, a text that \<^verbatim>\<open>json.loads\<close> rejects. The concrete syntax of JSON,
  which belongs to the library, is not modelled.
\<close>

datatype file_text = Malformed | Dumped json

definition json_loads :: "file_text \<Rightarrow> error + json" where
  "json_loads t = (case t of Malformed \<Rightarrow> Inl JSONDecodeError | Dumped j \<Rightarrow> Inr j)"

text \<open>
  The process-wide cache \<^verbatim>\<open>_index_cache\<close> and the two files under \<^verbatim>\<open>DATA_DIR\<close>;
  \<open>None\<close> is a file that does not exist.
\<close>

record world =
  index_cache :: "chunk list option"
  index_file :: "file_text option"
  knowledge_file :: "string option"

text \<open>\<^verbatim>\<open>_load_knowledge_text\<close>.\<close>

definition load_knowledge_text :: "world \<Rightarrow> error + string" where
  "load_knowledge_text s =
     (case knowledge_file s of None \<Rightarrow> Inl FileNotFoundError | Some txt \<Rightarrow> Inr txt)"

text \<open>\<^verbatim>\<open>item[key]\<close> on a loaded value: only an object can be indexed by a string.\<close>

definition subscript :: "json \<Rightarrow> string \<Rightarrow> error + json" where
  "subscript item key =
     (case item of
        JObj kvs \<Rightarrow> (case map_of kvs key of None \<Rightarrow> Inl (KeyError key) | Some v \<Rightarrow> Inr v)
      | _ \<Rightarrow> Inl TypeError)"

text \<open>
  The fields of \<open>chunk\<close> are typed. Where the loaded value of a field has another
  shape, Python builds the \<^verbatim>\<open>Chunk\<close> all the same and fails when the field is used; the
  typed model has no such chunk and gives \<open>TypeError\<close> at once.
\<close>

fun floats_of :: "json list \<Rightarrow> error + real list" where
  "floats_of [] = Inr []"
| "floats_of (JFloat r # js) =
     (case floats_of js of Inl e \<Rightarrow> Inl e | Inr rs \<Rightarrow> Inr (r # rs))"
| "floats_of (_ # js) = Inl TypeError"

text \<open>\<^verbatim>\<open>Chunk(id=item["id"], text=item["text"], embedding=item["embedding"])\<close>.\<close>

definition chunk_of_item :: "json \<Rightarrow> error + chunk" where
  "chunk_of_item item =
     (case subscript item ''id'' of
        Inl e \<Rightarrow> Inl e
      | Inr i \<Rightarrow>
          (case subscript item ''text'' of
             Inl e \<Rightarrow> Inl e
           | Inr t \<Rightarrow>
               (case subscript item ''embedding'' of
                  Inl e \<Rightarrow> Inl e
                | Inr emb \<Rightarrow>
                    (case (i, t, emb) of
                       (JInt n, JStr txt, JArr js) \<Rightarrow>
                         (case floats_of js of
                            Inl e \<Rightarrow> Inl e
                          | Inr rs \<Rightarrow> Inr \<lparr>chunk_id = n, chunk_text = txt, embedding = rs\<rparr>)
                     | _ \<Rightarrow> Inl TypeError))))"

fun chunks_of_items :: "json list \<Rightarrow> error + chunk list" where
  "chunks_of_items [] = Inr []"
| "chunks_of_items (item # items) =
     (case chunk_of_item item of
        Inl e \<Rightarrow> Inl e
      | Inr c \<Rightarrow> (case chunks_of_items items of Inl e \<Rightarrow> Inl e | Inr cs \<Rightarrow> Inr (c # cs)))"

text \<open>
  \<^verbatim>\<open>for item in raw\<close>: a list gives its elements, an object its keys, a string its
  characters; the other values are not iterable.
\<close>

definition iterate :: "json \<Rightarrow> error + json list" where
  "iterate raw =
     (case raw of
        JArr items \<Rightarrow> Inr items
      | JObj kvs \<Rightarrow> Inr (map (\<lambda>(k, v). JStr k) kvs)
      | JStr txt \<Rightarrow> Inr (map (\<lambda>c. JStr [c]) txt)
      | _ \<Rightarrow> Inl TypeError)"

text \<open>The branch of \<^verbatim>\<open>build_or_load_index\<close> that reads the persisted index.\<close>

definition load_index :: "file_text \<Rightarrow> error + chunk list" where
  "load_index t =
     (case json_loads t of
        Inl e \<Rightarrow> Inl e
      | Inr raw \<Rightarrow> (case iterate raw of Inl e \<Rightarrow> Inl e | Inr items \<Rightarrow> chunks_of_items items))"

text \<open>\<^verbatim>\<open>{"id": c.id, "text": c.text, "embedding": c.embedding}\<close>.\<close>

definition item_of_chunk :: "chunk \<Rightarrow> json" where
  "item_of_chunk c =
     JObj [(''id'', JInt (chunk_id c)), (''text'', JStr (chunk_text c)),
           (''embedding'', JArr (map JFloat (embedding c)))]"

text \<open>
  \<^verbatim>\<open>for i, chunk_text in enumerate(chunks_text)\<close>, from position \<open>i\<close> on, with the
  \<^verbatim>\<open>index\<close> built so far; the first failing embedding ends the loop.
\<close>

fun embed_chunks :: "embeddings_api \<Rightarrow> chunk list \<Rightarrow> int \<Rightarrow> string list \<Rightarrow> error + chunk list" where
  "embed_chunks create index i [] = Inr index"
| "embed_chunks create index i (t # ts) =
     (case embed_text create t of
        Inl e \<Rightarrow> Inl e
      | Inr emb \<Rightarrow>
          embed_chunks create (index @ [\<lparr>chunk_id = i, chunk_text = t, embedding = emb\<rparr>])
            (i + 1) ts)"

text \<open>
  \<^verbatim>\<open>build_or_load_index\<close>: the result, or the exception, together with the world after the
  call. An exception leaves the world as it was when it was raised.
\<close>

definition build_or_load_index ::
  "embeddings_api \<Rightarrow> bool \<Rightarrow> world \<Rightarrow> (error + chunk list) \<times> world" where
  "build_or_load_index create force_rebuild s =
     (case (index_cache s, force_rebuild) of
        (Some cached, False) \<Rightarrow> (Inr cached, s)
      | _ \<Rightarrow>
        (case (index_file s, force_rebuild) of
           (Some t, False) \<Rightarrow>
             (case load_index t of
                Inl e \<Rightarrow> (Inl e, s)
              | Inr loaded \<Rightarrow> (Inr loaded, s\<lparr>index_cache := Some loaded\<rparr>))
         | _ \<Rightarrow>
           (case load_knowledge_text s of
              Inl e \<Rightarrow> (Inl e, s)
            | Inr txt \<Rightarrow>
                (case embed_chunks create [] 0 (split_text_into_chunks txt 800 100) of
                   Inl e \<Rightarrow> (Inl e, s)
                 | Inr index \<Rightarrow>
                     (Inr index,
                      s\<lparr>index_file := Some (Dumped (JArr (map item_of_chunk index))),
                        index_cache := Some index\<rparr>)))))"

subsection \<open>The retriever\<close>

text \<open>\<^verbatim>\<open>[(c, _cosine_similarity(query_emb, c.embedding)) for c in index]\<close>.\<close>

fun score_chunks :: "real list \<Rightarrow> chunk list \<Rightarrow> error + (chunk \<times> real) list" where
  "score_chunks query_emb [] = Inr []"
| "score_chunks query_emb (c # cs) =
     (case cosine_similarity query_emb (embedding c) of
        Inl e \<Rightarrow> Inl e
      | Inr sc \<Rightarrow>
          (case score_chunks query_emb cs of
             Inl e \<Rightarrow> Inl e
           | Inr scored \<Rightarrow> Inr ((c, sc) # scored)))"

text \<open>
  \<^verbatim>\<open>xs.sort(key=f, reverse=True)\<close>: the language sorts the reversed list with its stable
  ascending sort and reverses the outcome, so that equal keys keep their order.
\<close>

definition sort_reverse :: "('a \<Rightarrow> 'k::linorder) \<Rightarrow> 'a list \<Rightarrow> 'a list" where
  "sort_reverse f xs = rev (sort_key f (rev xs))"

text \<open>\<^verbatim>\<open>xs[:k]\<close>; a negative \<open>k\<close> counts from the end.\<close>

definition slice_to :: "'a list \<Rightarrow> int \<Rightarrow> 'a list" where
  "slice_to xs k = (if 0 \<le> k then take (nat k) xs else take (nat (int (length xs) + k)) xs)"

definition retrieve_relevant_chunks ::
  "embeddings_api \<Rightarrow> string \<Rightarrow> int \<Rightarrow> world \<Rightarrow> (error + chunk list) \<times> world" where
  "retrieve_relevant_chunks create question k s =
     (case build_or_load_index create False s of
        (Inl e, s') \<Rightarrow> (Inl e, s')
      | (Inr index, s') \<Rightarrow>
          (case embed_text create question of
             Inl e \<Rightarrow> (Inl e, s')
           | Inr query_emb \<Rightarrow>
               (case score_chunks query_emb index of
                  Inl e \<Rightarrow> (Inl e, s')
                | Inr scored \<Rightarrow> (Inr (map fst (slice_to (sort_reverse snd scored) k)), s'))))"

subsection \<open>The answer composer\<close>

text \<open>
  What \<^verbatim>\<open>client.chat.completions.create\<close> returns: for each choice the content of its
  message, which the provider may leave \<^verbatim>\<open>None\<close>, and the usage counters if reported.
\<close>

record usage_counters =
  prompt_tokens :: "int option"
  completion_tokens :: "int option"
  total_tokens :: "int option"

record completion =
  choices :: "string option list"
  usage :: "usage_counters option"

type_synonym chat_api = "string \<Rightarrow> (string \<times> string) list \<Rightarrow> real \<Rightarrow> error + completion"

record answer_result =
  answer :: string
  retrieved_chunks :: "string list"
  source_files :: "string list"
  model_name :: string
  temperature :: real
  usage_dict :: "(string \<times> int option) list"

definition system_prompt :: string where
  "system_prompt =
     ''Eres un asistente virtual de tr'' @ [CHR 0xE1] @ ''mites consulares del Ministerio de Relaciones Exteriores del Per''
       @ [CHR 0xFA] @ ''. ''
     @ ''Responde siempre en espa'' @ [CHR 0xF1] @ ''ol claro y breve. ''
     @ ''Usa '' @ [CHR 0xFA] @ ''nicamente la informaci'' @ [CHR 0xF3] @ ''n proporcionada en el CONTEXTO para responder. ''
     @ ''Si la informaci'' @ [CHR 0xF3] @ ''n no est'' @ [CHR 0xE1] @ '' en el contexto o no es suficiente, indica amablemente ''
     @ ''que no puedes responder con certeza y sugiere contactar al consulado.''"

definition user_prompt :: "string \<Rightarrow> string \<Rightarrow> string" where
  "user_prompt context_text question =
     ''CONTEXTO:'' @ [CHR 0x0A] @ context_text @ [CHR 0x0A, CHR 0x0A]
     @ ''PREGUNTA DEL CIUDADANO:'' @ [CHR 0x0A] @ question @ [CHR 0x0A, CHR 0x0A]
     @ ''Responde de forma estructurada y f'' @ [CHR 0xE1] @ ''cil de entender.''"

text \<open>
  \<^verbatim>\<open>completion.choices[0].message.content.strip() if completion.choices else ""\<close>;
  \<^verbatim>\<open>None\<close> has no \<^verbatim>\<open>strip\<close>.
\<close>

definition answer_text_of :: "completion \<Rightarrow> error + string" where
  "answer_text_of c =
     (case choices c of
        [] \<Rightarrow> Inr []
      | content # _ \<Rightarrow> (case content of None \<Rightarrow> Inl AttributeError | Some txt \<Rightarrow> Inr (py_strip txt)))"

definition usage_of :: "completion \<Rightarrow> (string \<times> int option) list" where
  "usage_of c =
     (case usage c of
        None \<Rightarrow> []
      | Some u \<Rightarrow> [(''input_tokens'', prompt_tokens u), (''output_tokens'', completion_tokens u),
                   (''total_tokens'', total_tokens u)])"

text \<open>\<^verbatim>\<open>"\n\n---\n\n".join(c.text for c in top_chunks)\<close>.\<close>

definition context_of :: "chunk list \<Rightarrow> string" where
  "context_of top_chunks =
     py_join ([CHR 0x0A, CHR 0x0A] @ ''---'' @ [CHR 0x0A, CHR 0x0A]) (map chunk_text top_chunks)"

definition answer_question ::
  "embeddings_api \<Rightarrow> chat_api \<Rightarrow> string \<Rightarrow> int \<Rightarrow> world \<Rightarrow> (error + answer_result) \<times> world" where
  "answer_question create chat question k s =
     (case retrieve_relevant_chunks create question k s of
        (Inl e, s') \<Rightarrow> (Inl e, s')
      | (Inr top_chunks, s') \<Rightarrow>
          (let context_text = context_of top_chunks
           in case chat CHAT_MODEL
                     [(''system'', system_prompt), (''user'', user_prompt context_text question)]
                     (2 / 10) of
                Inl e \<Rightarrow> (Inl e, s')
              | Inr c \<Rightarrow>
                  (case answer_text_of c of
                     Inl e \<Rightarrow> (Inl e, s')
                   | Inr answer_text \<Rightarrow>
                       (Inr \<lparr>answer = answer_text,
                             retrieved_chunks = map chunk_text top_chunks,
                             source_files = map (\<lambda>_. ''knowledge.txt'') top_chunks,
                             model_name = CHAT_MODEL,
                             temperature = 2 / 10,
                             usage_dict = usage_of c\<rparr>, s'))))"

subsection \<open>Auxiliary notions used in the statements\<close>

text \<open>A word as \<^verbatim>\<open>split()\<close> yields it: not empty and free of whitespace.\<close>

definition is_word :: "string \<Rightarrow> bool" where
  "is_word w = (w \<noteq> [] \<and> list_all (\<lambda>c. \<not> is_space c) w)"

text \<open>The Euclidean norm, as \<^verbatim>\<open>_cosine_similarity\<close> computes it.\<close>

definition vec_norm :: "real list \<Rightarrow> real" where
  "vec_norm a = sqrt (sum_list (map (\<lambda>x. x * x) a))"

text \<open>The score that \<^verbatim>\<open>_cosine_similarity\<close> returns (it is shown below to return always).\<close>

definition similarity :: "real list \<Rightarrow> real list \<Rightarrow> real" where
  "similarity a b = (case cosine_similarity a b of Inl e \<Rightarrow> 0 | Inr r \<Rightarrow> r)"

subsection \<open>A small provider, index and world for concrete runs\<close>

definition example_api :: embeddings_api where
  "example_api m t =
     (if t = ''q'' then Inr [[1, 0]]
      else if t = ''boom'' then Inl (ProviderError ''rate limit'')
      else Inr [[0, 1]])"

definition example_index :: "chunk list" where
  "example_index =
     [\<lparr>chunk_id = 0, chunk_text = ''a'', embedding = [0, 1]\<rparr>,
      \<lparr>chunk_id = 1, chunk_text = ''b'', embedding = [1, 0]\<rparr>,
      \<lparr>chunk_id = 2, chunk_text = ''c'', embedding = [0, 1]\<rparr>]"

definition example_world :: world where
  "example_world =
     \<lparr>index_cache = Some example_index, index_file = None, knowledge_file = None\<rparr>"

definition cold_world :: "string option \<Rightarrow> world" where
  "cold_world k = \<lparr>index_cache = None, index_file = None, knowledge_file = k\<rparr>"

definition silent_chat :: chat_api where
  "silent_chat m msgs t = Inr \<lparr>choices = [], usage = None\<rparr>"

definition padded_chat :: chat_api where
  "padded_chat m msgs t =
     Inr \<lparr>choices = [Some ''  Hola.  ''],
          usage = Some \<lparr>prompt_tokens = Some 7, completion_tokens = Some 2, total_tokens = Some 9\<rparr>\<rparr>"

section \<open>Properties\<close>

subsection \<open>Splitting, joining and stripping\<close>

lemma split_acc_words:
  "list_all (\<lambda>c. \<not> is_space c) acc \<Longrightarrow> list_all is_word (split_acc acc s)"
  by (induction s arbitrary: acc) (auto simp: is_word_def)

lemma py_split_words: "list_all is_word (py_split s)"
  by (simp add: py_split_def split_acc_words)

lemma split_acc_nospace:
  "list_all (\<lambda>c. \<not> is_space c) w \<Longrightarrow> split_acc acc (w @ s) = split_acc (acc @ w) s"
  by (induction w arbitrary: acc) auto

lemma is_space_blank: "is_space (CHR '' '')"
  by (simp add: is_space_def)

lemma split_acc_join:
  "list_all is_word ws \<Longrightarrow> ws \<noteq> [] \<Longrightarrow> list_all (\<lambda>c. \<not> is_space c) acc \<Longrightarrow>
   split_acc acc (py_join '' '' ws) = (acc @ hd ws) # tl ws"
proof (induction ws arbitrary: acc)
  case Nil
  then show ?case by simp
next
  case (Cons w ws)
  have w: "list_all (\<lambda>c. \<not> is_space c) w" "w \<noteq> []"
    using Cons.prems by (simp_all add: is_word_def)
  show ?case
  proof (cases ws)
    case Nil
    then show ?thesis
      using split_acc_nospace [OF w(1), of acc "[]"] w by simp
  next
    case (Cons v vs)
    have "split_acc acc (py_join '' '' (w # v # vs))
        = split_acc (acc @ w) (CHR '' '' # py_join '' '' (v # vs))"
      using split_acc_nospace [OF w(1)] by simp
    also have "\<dots> = (acc @ w) # split_acc [] (py_join '' '' (v # vs))"
      using w by (simp add: is_space_blank)
    also have "split_acc [] (py_join '' '' (v # vs)) = ([] @ hd (v # vs)) # tl (v # vs)"
      using Cons.prems Cons by (intro Cons.IH [unfolded Cons]) simp_all
    finally show ?thesis using Cons by simp
  qed
qed

lemma py_split_join:
  "list_all is_word ws \<Longrightarrow> py_split (py_join '' '' ws) = ws"
proof (cases ws)
  case Nil
  then show ?thesis by (simp add: py_split_def)
next
  case (Cons w ws')
  assume "list_all is_word ws"
  with Cons show ?thesis
    using split_acc_join [of ws "[]"] by (simp add: py_split_def)
qed

lemma join_hd: "ws \<noteq> [] \<Longrightarrow> hd ws \<noteq> [] \<Longrightarrow> py_join sep ws \<noteq> [] \<and> hd (py_join sep ws) = hd (hd ws)"
  by (induction sep ws rule: py_join.induct) auto

lemma join_last:
  "ws \<noteq> [] \<Longrightarrow> last ws \<noteq> [] \<Longrightarrow>
   py_join sep ws \<noteq> [] \<and> last (py_join sep ws) = last (last ws)"
  by (induction sep ws rule: py_join.induct) auto

lemma py_strip_id:
  "s \<noteq> [] \<Longrightarrow> \<not> is_space (hd s) \<Longrightarrow> \<not> is_space (last s) \<Longrightarrow> py_strip s = s"
proof -
  assume a: "s \<noteq> []" "\<not> is_space (hd s)" "\<not> is_space (last s)"
  then have "dropWhile is_space (rev s) = rev s"
    by (cases "rev s") (auto simp: last_rev hd_rev)
  moreover from a have "dropWhile is_space s = s"
    by (cases s) auto
  ultimately show ?thesis by (simp add: py_strip_def)
qed

lemma py_strip_join:
  assumes "list_all is_word ws"
  shows "py_strip (py_join '' '' ws) = py_join '' '' ws"
proof (cases "ws = []")
  case True
  then show ?thesis by (simp add: py_strip_def)
next
  case False
  from assms False have h: "is_word (hd ws)" and l: "is_word (last ws)"
    by (auto simp: list_all_iff)
  from h have "hd ws \<noteq> []" "\<not> is_space (hd (hd ws))"
    by (auto simp: is_word_def list_all_iff)
  moreover from l have "last ws \<noteq> []" "\<not> is_space (last (last ws))"
    by (auto simp: is_word_def list_all_iff)
  ultimately show ?thesis
    using False join_hd [of ws "'' ''"] join_last [of ws "'' ''"]
    by (intro py_strip_id) auto
qed

lemma py_split_chunk:
  "list_all is_word ws \<Longrightarrow> py_split (py_strip (py_join '' '' ws)) = ws"
  by (simp add: py_strip_join py_split_join)

subsection \<open>The overlap loop\<close>

lemma overlap_loop_append:
  "overlap_loop cur ow ov = (rest, seed) \<Longrightarrow> rest @ seed = cur @ ow"
proof (induction cur ow ov rule: overlap_loop.induct)
  case (1 current overlap_words overlap)
  show ?case
  proof (cases "current \<noteq> [] \<and> words_len overlap_words < overlap")
    case True
    with "1.prems" have "overlap_loop (butlast current) (last current # overlap_words) overlap = (rest, seed)"
      by (simp add: overlap_loop.simps [of current])
    with "1.IH" True have "rest @ seed = butlast current @ last current # overlap_words"
      by blast
    with True show ?thesis by simp
  next
    case False
    with "1.prems" show ?thesis by (simp add: overlap_loop.simps [of current])
  qed
qed

lemma overlap_loop_exit:
  "overlap_loop cur ow ov = (rest, seed) \<Longrightarrow> rest = [] \<or> ov \<le> words_len seed"
proof (induction cur ow ov rule: overlap_loop.induct)
  case (1 current overlap_words overlap)
  show ?case
  proof (cases "current \<noteq> [] \<and> words_len overlap_words < overlap")
    case True
    with "1.prems" have "overlap_loop (butlast current) (last current # overlap_words) overlap = (rest, seed)"
      by (simp add: overlap_loop.simps [of current])
    with "1.IH" True show ?thesis by blast
  next
    case False
    with "1.prems" show ?thesis by (auto simp add: overlap_loop.simps [of current])
  qed
qed

lemma overlap_loop_tail:
  "overlap_loop cur ow ov = (rest, seed) \<Longrightarrow> ow = [] \<or> words_len (tl ow) < ov
     \<Longrightarrow> seed = [] \<or> words_len (tl seed) < ov"
proof (induction cur ow ov rule: overlap_loop.induct)
  case (1 current overlap_words overlap)
  show ?case
  proof (cases "current \<noteq> [] \<and> words_len overlap_words < overlap")
    case True
    with "1.prems" have "overlap_loop (butlast current) (last current # overlap_words) overlap = (rest, seed)"
      by (simp add: overlap_loop.simps [of current])
    with "1.IH" True show ?thesis by simp
  next
    case False
    with "1.prems" show ?thesis by (auto simp add: overlap_loop.simps [of current])
  qed
qed

lemma overlap_loop_length:
  "overlap_loop cur ow ov = (rest, seed) \<Longrightarrow> length ow \<le> length seed"
proof (induction cur ow ov rule: overlap_loop.induct)
  case (1 current overlap_words overlap)
  show ?case
  proof (cases "current \<noteq> [] \<and> words_len overlap_words < overlap")
    case True
    with "1.prems" have "overlap_loop (butlast current) (last current # overlap_words) overlap = (rest, seed)"
      by (simp add: overlap_loop.simps [of current])
    with "1.IH" True have "length (last current # overlap_words) \<le> length seed" by blast
    then show ?thesis by simp
  next
    case False
    with "1.prems" show ?thesis by (auto simp add: overlap_loop.simps [of current])
  qed
qed

lemma overlap_loop_nonempty:
  assumes "cur \<noteq> []" "0 < ov" "overlap_loop cur [] ov = (rest, seed)"
  shows "seed \<noteq> []"
proof -
  from assms have "overlap_loop (butlast cur) [last cur] ov = (rest, seed)"
    by (simp add: overlap_loop.simps [of cur "[]"] words_len_def)
  from overlap_loop_length [OF this] show ?thesis by auto
qed

subsection \<open>The chunker without overlap\<close>

lemma chunk_step_zero:
  assumes "list_all is_word (current st)" "is_word word"
  shows "list_all is_word (current (chunk_step max_chars 0 st word)) \<and>
         concat (map py_split (chunks (chunk_step max_chars 0 st word)))
           @ current (chunk_step max_chars 0 st word)
         = concat (map py_split (chunks st)) @ current st @ [word]"
  using assms by (simp add: chunk_step_def close_chunk_def Let_def py_split_chunk)

lemma chunk_loop_zero:
  "list_all is_word (current st) \<Longrightarrow> list_all is_word ws \<Longrightarrow>
   list_all is_word (current (foldl (chunk_step max_chars 0) st ws)) \<and>
   concat (map py_split (chunks (foldl (chunk_step max_chars 0) st ws)))
     @ current (foldl (chunk_step max_chars 0) st ws)
   = concat (map py_split (chunks st)) @ current st @ ws"
proof (induction ws arbitrary: st)
  case Nil
  then show ?case by simp
next
  case (Cons w ws)
  from Cons.prems have w: "is_word w" and ws: "list_all is_word ws" by simp_all
  note step = chunk_step_zero [OF Cons.prems(1) w, of max_chars]
  from Cons.IH [OF conjunct1 [OF step] ws] step show ?case by simp
qed

lemma split_zero_concat:
  "concat (map py_split (split_text_into_chunks text max_chars 0)) = py_split text"
proof -
  let ?st = "foldl (chunk_step max_chars 0) \<lparr>chunks = [], current = [], current_len = 0\<rparr> (py_split text)"
  have inv: "list_all is_word (current ?st)"
    "concat (map py_split (chunks ?st)) @ current ?st = py_split text"
    using chunk_loop_zero [of "\<lparr>chunks = [], current = [], current_len = 0\<rparr>" "py_split text" max_chars]
    by (simp_all add: py_split_words)
  show ?thesis
  proof (cases "current ?st = []")
    case True
    with inv(2) show ?thesis by (simp add: split_text_into_chunks_def Let_def)
  next
    case False
    with inv show ?thesis by (simp add: split_text_into_chunks_def Let_def py_split_chunk)
  qed
qed

lemma distinct_concat_nth:
  "distinct (concat xss) \<Longrightarrow> i < j \<Longrightarrow> j < length xss \<Longrightarrow> set (xss ! i) \<inter> set (xss ! j) = {}"
proof (induction xss arbitrary: i j)
  case Nil
  then show ?case by simp
next
  case (Cons xs xss)
  show ?case
  proof (cases i)
    case 0
    with Cons.prems obtain j' where j: "j = Suc j'" "j' < length xss" by (cases j) auto
    then have "xss ! j' \<in> set xss" by simp
    then have "set (xss ! j') \<subseteq> set (concat xss)" by auto
    with Cons.prems(1) 0 j show ?thesis by auto
  next
    case (Suc i')
    with Cons.prems obtain j' where j: "j = Suc j'" "j' < length xss" "i' < j'" by (cases j) auto
    with Cons.IH [of i' j'] Cons.prems(1) Suc show ?thesis by simp
  qed
qed

subsection \<open>Cosine similarity and the descending stable sort\<close>

lemma sum_squares_nonneg: "0 \<le> sum_list (map (\<lambda>x. x * x) (a :: real list))"
  by (induction a) simp_all

lemma math_sqrt_squares: "math_sqrt (sum_list (map (\<lambda>x. x * x) a)) = Inr (vec_norm a)"
  using sum_squares_nonneg [of a] by (simp add: math_sqrt_def vec_norm_def)

lemma cosine_similarity_cases:
  "cosine_similarity a b =
     Inr (if vec_norm a = 0 \<or> vec_norm b = 0 then 0
          else sum_list (map (\<lambda>(x, y). x * y) (zip a b)) / (vec_norm a * vec_norm b))"
  by (simp add: cosine_similarity_def math_sqrt_squares truediv_def)

lemma cosine_similarity_total: "cosine_similarity a b = Inr (similarity a b)"
  by (simp add: similarity_def cosine_similarity_cases)

lemma score_chunks_total:
  "score_chunks q index = Inr (map (\<lambda>c. (c, similarity q (embedding c))) index)"
  by (induction index) (simp_all add: cosine_similarity_total)

lemma insort_key_pair:
  "insort_key snd (c, g c) (map (\<lambda>c. (c, g c)) ys) = map (\<lambda>c. (c, g c)) (insort_key g c ys)"
  by (induction ys) simp_all

lemma sort_key_pair:
  "sort_key snd (map (\<lambda>c. (c, g c)) xs) = map (\<lambda>c. (c, g c)) (sort_key g xs)"
  by (induction xs) (simp_all add: insort_key_pair)

lemma sort_reverse_pair:
  "map fst (sort_reverse snd (map (\<lambda>c. (c, g c)) xs)) = sort_reverse g xs"
proof -
  have "sort_key snd (rev (map (\<lambda>c. (c, g c)) xs)) = map (\<lambda>c. (c, g c)) (sort_key g (rev xs))"
    using sort_key_pair [of g "rev xs"] by (simp add: rev_map)
  then show ?thesis by (simp add: sort_reverse_def rev_map comp_def)
qed

lemma slice_to_map: "map f (slice_to xs k) = slice_to (map f xs) k"
  by (simp add: slice_to_def take_map)

lemma mset_sort_reverse: "mset (sort_reverse f xs) = mset xs"
  by (simp add: sort_reverse_def)

lemma set_sort_reverse: "set (sort_reverse f xs) = set xs"
  by (simp add: sort_reverse_def)

lemma length_sort_reverse: "length (sort_reverse f xs) = length xs"
  by (simp add: sort_reverse_def)

lemma sorted_sort_reverse: "sorted_wrt (\<ge>) (map f (sort_reverse f xs))"
proof -
  have "sorted (map f (sort_key f (rev xs)))" by simp
  then have "sorted_wrt (\<lambda>x y. y \<le> x) (rev (map f (sort_key f (rev xs))))"
    by (simp add: sorted_wrt_rev)
  then show ?thesis by (simp add: sort_reverse_def rev_map)
qed

lemma sort_reverse_stable:
  "filter (\<lambda>y. f y = v) (sort_reverse f xs) = filter (\<lambda>y. f y = v) xs"
  by (simp add: sort_reverse_def rev_filter [symmetric] sort_key_stable)

lemma filter_take_prefix: "prefix (filter P (take n xs)) (filter P xs)"
proof -
  have "filter P xs = filter P (take n xs) @ filter P (drop n xs)"
    by (metis append_take_drop_id filter_append)
  then show ?thesis by (metis prefixI)
qed

lemma build_or_load_index_cached:
  "build_or_load_index create force s = (Inr index, s') \<Longrightarrow> index_cache s' = Some index"
  by (auto simp: build_or_load_index_def split: option.splits bool.splits sum.splits)

lemma retrieve_result:
  assumes "build_or_load_index create False s = (Inr index, s')"
    and "embed_text create question = Inr q"
  shows "retrieve_relevant_chunks create question k s =
         (Inr (slice_to (sort_reverse (\<lambda>c. similarity q (embedding c)) index) k), s')"
  using assms
  by (simp add: retrieve_relevant_chunks_def score_chunks_total slice_to_map sort_reverse_pair)

lemma slice_to_length: "0 < k \<Longrightarrow> int (length (slice_to xs k)) \<le> k"
  by (simp add: slice_to_def)

lemma slice_to_all: "int (length xs) \<le> k \<Longrightarrow> slice_to xs k = xs"
  by (auto simp: slice_to_def)

lemma slice_to_subset: "set (slice_to xs k) \<subseteq> set xs"
  by (auto simp: slice_to_def dest: in_set_takeD)

lemma slice_to_sorted: "sorted_wrt R xs \<Longrightarrow> sorted_wrt R (slice_to xs k)"
  by (simp add: slice_to_def)

lemma slice_to_filter_prefix: "prefix (filter P (slice_to xs k)) (filter P xs)"
  by (simp add: slice_to_def filter_take_prefix)

lemma sorted_wrt_prefix: "prefix xs ys \<Longrightarrow> sorted_wrt R ys \<Longrightarrow> sorted_wrt R xs"
  by (auto simp: prefix_def sorted_wrt_append)

subsection \<open>The index store\<close>

lemma floats_of_map: "floats_of (map JFloat rs) = Inr rs"
  by (induction rs) simp_all

lemma chunk_of_item_of_chunk: "chunk_of_item (item_of_chunk c) = Inr c"
  by (simp add: chunk_of_item_def item_of_chunk_def subscript_def floats_of_map)

lemma chunks_of_items_map: "chunks_of_items (map item_of_chunk index) = Inr index"
  by (induction index) (simp_all add: chunk_of_item_of_chunk)

lemma load_index_dumped: "load_index (Dumped (JArr (map item_of_chunk index))) = Inr index"
  by (simp add: load_index_def json_loads_def iterate_def chunks_of_items_map)

lemma build_branch:
  assumes "force_rebuild \<or> (index_cache s = None \<and> index_file s = None)"
  shows "build_or_load_index create force_rebuild s =
     (case load_knowledge_text s of
        Inl e \<Rightarrow> (Inl e, s)
      | Inr txt \<Rightarrow>
          (case embed_chunks create [] 0 (split_text_into_chunks txt 800 100) of
             Inl e \<Rightarrow> (Inl e, s)
           | Inr index \<Rightarrow>
               (Inr index,
                s\<lparr>index_file := Some (Dumped (JArr (map item_of_chunk index))),
                  index_cache := Some index\<rparr>)))"
  using assms by (auto simp: build_or_load_index_def split: option.splits bool.splits)

lemma embed_chunks_fails:
  "t \<in> set ts \<Longrightarrow> embed_text create t = Inl e \<Longrightarrow>
   \<exists>pre t' post e'. ts = pre @ t' # post \<and> (\<forall>u\<in>set pre. \<exists>v. embed_text create u = Inr v) \<and>
     embed_text create t' = Inl e' \<and> embed_chunks create index i ts = Inl e'"
proof (induction ts arbitrary: index i)
  case Nil
  then show ?case by simp
next
  case (Cons a ts)
  show ?case
  proof (cases "embed_text create a")
    case (Inl e0)
    then have "a # ts = [] @ a # ts \<and> (\<forall>u\<in>set []. \<exists>v. embed_text create u = Inr v) \<and>
       embed_text create a = Inl e0 \<and> embed_chunks create index i (a # ts) = Inl e0"
      by simp
    then show ?thesis by blast
  next
    case (Inr emb)
    with Cons.prems have "t \<in> set ts" by auto
    from Cons.IH [OF this Cons.prems(2),
        of "index @ [\<lparr>chunk_id = i, chunk_text = a, embedding = emb\<rparr>]" "i + 1"]
    obtain pre t' post e' where h: "ts = pre @ t' # post"
      "\<forall>u\<in>set pre. \<exists>v. embed_text create u = Inr v" "embed_text create t' = Inl e'"
      "embed_chunks create (index @ [\<lparr>chunk_id = i, chunk_text = a, embedding = emb\<rparr>]) (i + 1) ts = Inl e'"
      by blast
    with Inr have "a # ts = (a # pre) @ t' # post \<and> (\<forall>u\<in>set (a # pre). \<exists>v. embed_text create u = Inr v) \<and>
       embed_text create t' = Inl e' \<and> embed_chunks create index i (a # ts) = Inl e'"
      by simp
    then show ?thesis by blast
  qed
qed

lemma retrieve_propagates:
  "build_or_load_index create False s = (Inl e, s') \<Longrightarrow>
   retrieve_relevant_chunks create question k s = (Inl e, s')"
  by (simp add: retrieve_relevant_chunks_def)

lemma answer_propagates:
  "retrieve_relevant_chunks create question k s = (Inl e, s') \<Longrightarrow>
   answer_question create chat question k s = (Inl e, s')"
  by (simp add: answer_question_def)

lemma embed_chunks_ids:
  "embed_chunks create index i ts = Inr result \<Longrightarrow>
   map chunk_id result = map chunk_id index @ map (\<lambda>j. i + int j) [0..<length ts]"
proof (induction ts arbitrary: index i)
  case Nil
  then show ?case by simp
next
  case (Cons t ts)
  from Cons.prems obtain emb where e: "embed_text create t = Inr emb"
    and r: "embed_chunks create (index @ [\<lparr>chunk_id = i, chunk_text = t, embedding = emb\<rparr>]) (i + 1) ts = Inr result"
    by (auto split: sum.splits)
  have "map (\<lambda>j. i + int j) [0..<Suc (length ts)] = i # map (\<lambda>j. i + 1 + int j) [0..<length ts]"
    by (simp add: upt_rec [of 0] map_Suc_upt [symmetric] del: upt_Suc)
  with Cons.IH [OF r] show ?case by simp
qed

lemma embed_chunks_length:
  "embed_chunks create index i ts = Inr result \<Longrightarrow> length result = length index + length ts"
  by (induction ts arbitrary: index i) (auto split: sum.splits)

lemma build_ids:
  assumes "force_rebuild \<or> (index_cache s = None \<and> index_file s = None)"
    and "build_or_load_index create force_rebuild s = (Inr index, s')"
  shows "map chunk_id index = map int [0..<length index]"
proof -
  from assms obtain ktext where
    "embed_chunks create [] 0 (split_text_into_chunks ktext 800 100) = Inr index"
    by (auto simp: build_branch split: sum.splits)
  from embed_chunks_ids [OF this] embed_chunks_length [OF this] show ?thesis by simp
qed

lemma sorted_ids: "map chunk_id index = map int [0..<length index] \<Longrightarrow> sorted_wrt (<) (map chunk_id index)"
  by (simp add: sorted_wrt_map sorted_wrt_iff_nth_less)

subsection \<open>What stripping removes\<close>

lemma py_strip_trims:
  "\<exists>pre post. s = pre @ py_strip s @ post \<and> list_all is_space pre \<and> list_all is_space post \<and>
     (py_strip s \<noteq> [] \<longrightarrow> \<not> is_space (hd (py_strip s)) \<and> \<not> is_space (last (py_strip s)))"
proof -
  let ?m = "rev (dropWhile is_space (rev s))"
  let ?post = "rev (takeWhile is_space (rev s))"
  let ?pre = "takeWhile is_space ?m"
  have "?m @ ?post = rev (takeWhile is_space (rev s) @ dropWhile is_space (rev s))"
    by (simp only: rev_append)
  also have "\<dots> = s" by (simp only: takeWhile_dropWhile_id rev_rev_ident)
  finally have s: "s = ?m @ ?post" by (rule sym)
  have m: "?m = ?pre @ py_strip s" by (simp add: py_strip_def)
  have 1: "s = ?pre @ py_strip s @ ?post" using s m by (metis append_assoc)
  have 2: "list_all is_space ?pre" "list_all is_space ?post"
    by (auto simp: list_all_iff dest: set_takeWhileD)
  have 3: "\<not> is_space (hd (py_strip s))" if "py_strip s \<noteq> []"
    using that hd_dropWhile [of is_space ?m] by (simp add: py_strip_def)
  have 4: "\<not> is_space (last (py_strip s))" if ne: "py_strip s \<noteq> []"
  proof -
    have d: "dropWhile is_space (rev s) \<noteq> []"
    proof
      assume e: "dropWhile is_space (rev s) = []"
      have "py_strip s = []" unfolding py_strip_def e by simp
      with ne show False by simp
    qed
    from ne m have "last (py_strip s) = last ?m" by (metis last_appendR)
    also from d have "\<dots> = hd (dropWhile is_space (rev s))"
      by (simp add: last_rev)
    finally show ?thesis
      using d hd_dropWhile [of is_space "rev s"] by simp
  qed
  from 1 2 3 4 show ?thesis by blast
qed

subsection \<open>Concrete runs\<close>

lemma example_similarities:
  "similarity [1, 0] [0, 1] = 0" "similarity [1, 0] [1, 0] = 1"
  by (simp_all add: similarity_def cosine_similarity_def math_sqrt_def truediv_def)

lemma example_build: "build_or_load_index example_api False example_world = (Inr example_index, example_world)"
  by (simp add: build_or_load_index_def example_world_def)

lemma example_embed: "embed_text example_api ''q'' = Inr [1, 0]"
  by (simp add: embed_text_def example_api_def)

lemma example_retrieve:
  "retrieve_relevant_chunks example_api ''q'' 2 example_world =
     (Inr [\<lparr>chunk_id = 1, chunk_text = ''b'', embedding = [1, 0]\<rparr>,
           \<lparr>chunk_id = 0, chunk_text = ''a'', embedding = [0, 1]\<rparr>], example_world)"
  by (simp add: retrieve_result [OF example_build example_embed] example_index_def
      sort_reverse_def slice_to_def example_similarities)

lemma example_chunks:
  "split_text_into_chunks ''boom'' 800 100 = [''boom'']"
  "split_text_into_chunks ''hola mundo'' 800 100 = [''hola mundo'']"
  by (simp_all add: split_text_into_chunks_def py_split_def is_space_def chunk_step_def
      closes_def py_strip_def)

section \<open>The claims\<close>

subsection \<open>Retrieval\<close>

text \<open>
  Claim C1. For every question and every \<open>k > 0\<close>, once the index is obtained and the
  question is embedded, retrieval returns a sequence of at most \<open>k\<close> chunks, each of them
  an element of the current index (the cache after the call), in non-increasing order of
  cosine similarity to the query embedding; an index of at most \<open>k\<close> chunks is returned
  whole.
\<close>

theorem retrieve_top_k_sorted:
  assumes "0 < k"
    and "build_or_load_index create False s = (Inr index, s')"
    and "embed_text create question = Inr q"
  shows "\<exists>top_chunks.
           retrieve_relevant_chunks create question k s = (Inr top_chunks, s') \<and>
           index_cache s' = Some index \<and>
           int (length top_chunks) \<le> k \<and>
           set top_chunks \<subseteq> set index \<and>
           sorted_wrt (\<ge>) (map (\<lambda>c. similarity q (embedding c)) top_chunks) \<and>
           (int (length index) \<le> k \<longrightarrow> mset top_chunks = mset index)"
proof -
  let ?f = "\<lambda>c. similarity q (embedding c)"
  let ?top = "slice_to (sort_reverse ?f index) k"
  have "retrieve_relevant_chunks create question k s = (Inr ?top, s')"
    using assms(2,3) by (rule retrieve_result)
  moreover have "index_cache s' = Some index"
    using assms(2) by (rule build_or_load_index_cached)
  moreover have "int (length ?top) \<le> k"
    using assms(1) by (rule slice_to_length)
  moreover have "set ?top \<subseteq> set index"
    using slice_to_subset [of "sort_reverse ?f index" k] by (simp add: set_sort_reverse)
  moreover have "sorted_wrt (\<ge>) (map ?f ?top)"
    using slice_to_sorted [OF sorted_sort_reverse [of ?f index], of k]
    by (simp add: slice_to_map)
  moreover have "int (length index) \<le> k \<longrightarrow> mset ?top = mset index"
    by (simp add: slice_to_all length_sort_reverse mset_sort_reverse)
  ultimately show ?thesis by blast
qed

theorem retrieve_top_k_sorted_witness:
  "(0::int) < 2 \<and>
   build_or_load_index example_api False example_world = (Inr example_index, example_world) \<and>
   embed_text example_api ''q'' = Inr [1, 0] \<and>
   (\<exists>top_chunks.
      retrieve_relevant_chunks example_api ''q'' 2 example_world = (Inr top_chunks, example_world) \<and>
      index_cache example_world = Some example_index \<and>
      int (length top_chunks) \<le> 2 \<and>
      set top_chunks \<subseteq> set example_index \<and>
      sorted_wrt (\<ge>) (map (\<lambda>c. similarity [1, 0] (embedding c)) top_chunks) \<and>
      (int (length example_index) \<le> 2 \<longrightarrow> mset top_chunks = mset example_index))"
proof -
  have k: "(0::int) < 2" by simp
  from retrieve_top_k_sorted [OF k example_build example_embed] k example_build example_embed
  show ?thesis by blast
qed

text \<open>
  Claim C9. Chunks with equal scores are returned in index order: for every score, the
  returned chunks of that score are an initial part of the index's chunks of that score,
  so with ids ascending along the index (as a build assigns them) they come in ascending
  order of id. The result is a function of the index and the embeddings.
\<close>

theorem retrieve_ties_in_index_order:
  assumes "build_or_load_index create False s = (Inr index, s')"
    and "embed_text create question = Inr q"
  shows "\<exists>top_chunks.
           retrieve_relevant_chunks create question k s = (Inr top_chunks, s') \<and>
           (\<forall>v. prefix (filter (\<lambda>c. similarity q (embedding c) = v) top_chunks)
                       (filter (\<lambda>c. similarity q (embedding c) = v) index)) \<and>
           (sorted_wrt (<) (map chunk_id index) \<longrightarrow>
              (\<forall>v. sorted_wrt (<)
                     (map chunk_id (filter (\<lambda>c. similarity q (embedding c) = v) top_chunks))))"
proof -
  let ?f = "\<lambda>c. similarity q (embedding c)"
  let ?top = "slice_to (sort_reverse ?f index) k"
  have r: "retrieve_relevant_chunks create question k s = (Inr ?top, s')"
    using assms by (rule retrieve_result)
  have p: "prefix (filter (\<lambda>c. ?f c = v) ?top) (filter (\<lambda>c. ?f c = v) index)" for v
    using slice_to_filter_prefix [of "\<lambda>c. ?f c = v" "sort_reverse ?f index" k]
    by (simp add: sort_reverse_stable)
  have "sorted_wrt (<) (map chunk_id (filter (\<lambda>c. ?f c = v) ?top))"
    if asc: "sorted_wrt (<) (map chunk_id index)" for v
  proof -
    from asc have "sorted_wrt (\<lambda>a b. chunk_id a < chunk_id b) index"
      by (simp add: sorted_wrt_map)
    then have "sorted_wrt (\<lambda>a b. chunk_id a < chunk_id b) (filter (\<lambda>c. ?f c = v) index)"
      by (rule sorted_wrt_filter)
    with p [of v] have "sorted_wrt (\<lambda>a b. chunk_id a < chunk_id b) (filter (\<lambda>c. ?f c = v) ?top)"
      by (rule sorted_wrt_prefix)
    then show ?thesis by (simp add: sorted_wrt_map)
  qed
  with r p show ?thesis by blast
qed

theorem retrieve_ties_in_index_order_witness:
  "build_or_load_index example_api False example_world = (Inr example_index, example_world) \<and>
   embed_text example_api ''q'' = Inr [1, 0] \<and>
   sorted_wrt (<) (map chunk_id example_index) \<and>
   (\<exists>top_chunks.
      retrieve_relevant_chunks example_api ''q'' 3 example_world = (Inr top_chunks, example_world) \<and>
      (\<forall>v. prefix (filter (\<lambda>c. similarity [1, 0] (embedding c) = v) top_chunks)
                  (filter (\<lambda>c. similarity [1, 0] (embedding c) = v) example_index)) \<and>
      (\<forall>v. sorted_wrt (<)
             (map chunk_id (filter (\<lambda>c. similarity [1, 0] (embedding c) = v) top_chunks))))"
proof -
  have asc: "sorted_wrt (<) (map chunk_id example_index)"
    by (simp add: example_index_def)
  from retrieve_ties_in_index_order [OF example_build example_embed, of 3] asc
    example_build example_embed
  show ?thesis by blast
qed

subsection \<open>The chunker\<close>

text \<open>
  Claim C2, as stated, fails: the loop tests the length of the words already taken, so
  the word that makes the combined length reach \<open>overlap\<close> is taken too. On
  \<^verbatim>\<open>"aaaa bbbb cccc"\<close> with \<open>max_chars = 9\<close> and \<open>overlap = 5\<close> the chunk closed before
  \<^verbatim>\<open>cccc\<close> leaves the seed \<^verbatim>\<open>["bbbb"]\<close>, of combined length 5.
\<close>

theorem overlap_seed_not_below_overlap:
  "foldl (chunk_step 9 5) \<lparr>chunks = [], current = [], current_len = 0\<rparr> (py_split ''aaaa bbbb'')
     = \<lparr>chunks = [], current = [''aaaa'', ''bbbb''], current_len = 9\<rparr> \<and>
   closes 9 \<lparr>chunks = [], current = [''aaaa'', ''bbbb''], current_len = 9\<rparr> ''cccc'' \<and>
   current (close_chunk 5 \<lparr>chunks = [], current = [''aaaa'', ''bbbb''], current_len = 9\<rparr>)
     = [''bbbb''] \<and>
   \<not> words_len
        (current (close_chunk 5 \<lparr>chunks = [], current = [''aaaa'', ''bbbb''], current_len = 9\<rparr>))
      < 5"
  by (simp add: py_split_def is_space_def chunk_step_def closes_def close_chunk_def
      overlap_loop.simps words_len_def)

text \<open>
  Claim C2, amended. For \<open>overlap > 0\<close>, whenever a chunk is closed the buffer seeded for
  the next chunk is a non-empty suffix of the closed buffer, in the original order; words
  are taken from the end backward while the combined length (each word's length plus 1)
  of the words already taken is below \<open>overlap\<close>. So the seed without its first word is
  strictly below \<open>overlap\<close>, and the seed itself reaches \<open>overlap\<close> unless it is the whole
  closed buffer. The next word is appended to this seed.
\<close>

theorem overlap_seed_shortest_suffix:
  assumes "0 < overlap" "closes max_chars st word"
  shows "suffix (current (close_chunk overlap st)) (current st) \<and>
         current (close_chunk overlap st) \<noteq> [] \<and>
         words_len (tl (current (close_chunk overlap st))) < overlap \<and>
         (current (close_chunk overlap st) \<noteq> current st
            \<longrightarrow> overlap \<le> words_len (current (close_chunk overlap st))) \<and>
         current (chunk_step max_chars overlap st word) = current (close_chunk overlap st) @ [word]"
proof -
  from assms(2) have ne: "current st \<noteq> []" by (simp add: closes_def Let_def)
  obtain rest seed where r: "overlap_loop (current st) [] overlap = (rest, seed)"
    by (cases "overlap_loop (current st) [] overlap")
  with assms(1) have cur: "current (close_chunk overlap st) = seed"
    by (simp add: close_chunk_def Let_def)
  from overlap_loop_append [OF r] have app: "rest @ seed = current st" by simp
  then have "suffix seed (current st)" by (metis suffixI)
  moreover from overlap_loop_nonempty [OF ne assms(1) r] have "seed \<noteq> []" .
  moreover from overlap_loop_tail [OF r] have "words_len (tl seed) < overlap"
    using \<open>seed \<noteq> []\<close> by simp
  moreover from overlap_loop_exit [OF r] app have "seed \<noteq> current st \<longrightarrow> overlap \<le> words_len seed"
    by auto
  moreover from assms(2) have "current (chunk_step max_chars overlap st word) = current (close_chunk overlap st) @ [word]"
    by (simp add: chunk_step_def Let_def)
  ultimately show ?thesis using cur by simp
qed

theorem overlap_seed_shortest_suffix_witness:
  "(0::int) < 5 \<and>
   closes 9 \<lparr>chunks = [], current = [''aaaa'', ''bbbb''], current_len = 9\<rparr> ''cccc'' \<and>
   suffix (current (close_chunk 5 \<lparr>chunks = [], current = [''aaaa'', ''bbbb''], current_len = 9\<rparr>))
     [''aaaa'', ''bbbb''] \<and>
   words_len (tl (current (close_chunk 5
       \<lparr>chunks = [], current = [''aaaa'', ''bbbb''], current_len = 9\<rparr>))) < 5 \<and>
   5 \<le> words_len (current (close_chunk 5
       \<lparr>chunks = [], current = [''aaaa'', ''bbbb''], current_len = 9\<rparr>)) \<and>
   current (chunk_step 9 5 \<lparr>chunks = [], current = [''aaaa'', ''bbbb''], current_len = 9\<rparr> ''cccc'')
     = [''bbbb'', ''cccc'']"
proof -
  let ?st = "\<lparr>chunks = [], current = [''aaaa'', ''bbbb''], current_len = 9\<rparr>"
  have k: "(0::int) < 5" by simp
  have c: "closes 9 ?st ''cccc''" by (simp add: closes_def)
  have seed: "current (close_chunk 5 ?st) = [''bbbb'']"
    by (simp add: close_chunk_def overlap_loop.simps words_len_def)
  from overlap_seed_shortest_suffix [OF k c] k c seed show ?thesis by simp
qed

text \<open>
  Claim C6, as stated, fails on a text that repeats a word: \<^verbatim>\<open>"a a"\<close> with
  \<open>max_chars = 1\<close> and \<open>overlap = 0\<close> gives the chunks \<^verbatim>\<open>["a", "a"]\<close>, and the word
  \<^verbatim>\<open>a\<close> is in both.
\<close>

theorem overlap_zero_repeated_word:
  "split_text_into_chunks ''a a'' 1 0 = [''a'', ''a''] \<and>
   set (py_split (split_text_into_chunks ''a a'' 1 0 ! 0))
     \<inter> set (py_split (split_text_into_chunks ''a a'' 1 0 ! 1)) = {''a''}"
  by (simp add: split_text_into_chunks_def py_split_def is_space_def chunk_step_def closes_def
      close_chunk_def py_strip_def)

text \<open>
  Claim C6, amended. With \<open>overlap = 0\<close> no occurrence of a word goes into two chunks:
  the words of the chunks, one chunk after the other, are exactly the words of the text.
  Hence, when the words of the text are pairwise distinct, no word appears in two
  consecutive chunks.
\<close>

theorem overlap_zero_partition:
  "concat (map py_split (split_text_into_chunks text max_chars 0)) = py_split text \<and>
   (distinct (py_split text) \<longrightarrow>
     (\<forall>i. Suc i < length (split_text_into_chunks text max_chars 0) \<longrightarrow>
        set (py_split (split_text_into_chunks text max_chars 0 ! i))
          \<inter> set (py_split (split_text_into_chunks text max_chars 0 ! Suc i)) = {}))"
proof (intro conjI impI allI)
  show c: "concat (map py_split (split_text_into_chunks text max_chars 0)) = py_split text"
    by (rule split_zero_concat)
  fix i
  assume d: "distinct (py_split text)" and i: "Suc i < length (split_text_into_chunks text max_chars 0)"
  let ?cs = "split_text_into_chunks text max_chars 0"
  from d c have "distinct (concat (map py_split ?cs))" by simp
  from distinct_concat_nth [OF this, of i "Suc i"] i
  show "set (py_split (?cs ! i)) \<inter> set (py_split (?cs ! Suc i)) = {}" by simp
qed

theorem overlap_zero_partition_witness:
  "distinct (py_split ''a b'') \<and>
   Suc 0 < length (split_text_into_chunks ''a b'' 1 0) \<and>
   concat (map py_split (split_text_into_chunks ''a b'' 1 0)) = py_split ''a b'' \<and>
   set (py_split (split_text_into_chunks ''a b'' 1 0 ! 0))
     \<inter> set (py_split (split_text_into_chunks ''a b'' 1 0 ! Suc 0)) = {}"
proof -
  have d: "distinct (py_split ''a b'')"
    by (simp add: py_split_def is_space_def)
  have l: "Suc 0 < length (split_text_into_chunks ''a b'' 1 0)"
    by (simp add: split_text_into_chunks_def py_split_def is_space_def chunk_step_def closes_def
        close_chunk_def py_strip_def)
  from overlap_zero_partition [of "''a b''" 1] d l show ?thesis by blast
qed

subsection \<open>Cosine similarity\<close>

text \<open>
  Claim C7. The similarity of two vectors never raises: it always returns a number. If
  either vector has zero norm, the number is exactly 0.
\<close>

theorem cosine_zero_norm: "(\<exists>r. cosine_similarity a b = Inr r) \<and>
  (vec_norm a = 0 \<or> vec_norm b = 0 \<longrightarrow> cosine_similarity a b = Inr 0)"
  by (simp add: cosine_similarity_cases)


theorem cosine_zero_norm_witness:
  "(vec_norm [1, 2] = 0 \<or> vec_norm [0, 0] = 0) \<and>
   (\<exists>r. cosine_similarity [1, 2] [0, 0] = Inr r) \<and>
   cosine_similarity [1, 2] [0, 0] = Inr 0"
  using cosine_zero_norm [of "[1, 2]" "[0, 0]"] by (simp add: vec_norm_def)

subsection \<open>The index store\<close>

text \<open>
  Claim C3. When a build is due and the embedding of some chunk fails, the build stops at
  the first failing chunk and propagates its error; the world after the call is the world
  before it, so the index file is not written and the cache is unchanged.
\<close>

theorem build_aborts_on_embedding_failure:
  assumes "force_rebuild \<or> (index_cache s = None \<and> index_file s = None)"
    and "knowledge_file s = Some txt"
    and "t \<in> set (split_text_into_chunks txt 800 100)"
    and "embed_text create t = Inl e"
  shows "\<exists>pre t' post e'. split_text_into_chunks txt 800 100 = pre @ t' # post \<and>
           (\<forall>u\<in>set pre. \<exists>v. embed_text create u = Inr v) \<and>
           embed_text create t' = Inl e' \<and>
           build_or_load_index create force_rebuild s = (Inl e', s)"
proof -
  from embed_chunks_fails [OF assms(3,4), of "[]" 0]
  obtain pre t' post e' where h: "split_text_into_chunks txt 800 100 = pre @ t' # post"
      "\<forall>u\<in>set pre. \<exists>v. embed_text create u = Inr v" "embed_text create t' = Inl e'"
      "embed_chunks create [] 0 (split_text_into_chunks txt 800 100) = Inl e'"
    by blast
  from h(4) assms(1,2) have "build_or_load_index create force_rebuild s = (Inl e', s)"
    by (simp add: build_branch load_knowledge_text_def)
  with h(1-3) show ?thesis by blast
qed

theorem build_aborts_on_embedding_failure_witness:
  "(index_cache (cold_world (Some ''boom'')) = None \<and> index_file (cold_world (Some ''boom'')) = None) \<and>
   knowledge_file (cold_world (Some ''boom'')) = Some ''boom'' \<and>
   ''boom'' \<in> set (split_text_into_chunks ''boom'' 800 100) \<and>
   embed_text example_api ''boom'' = Inl (ProviderError ''rate limit'') \<and>
   (\<exists>pre t' post e'. split_text_into_chunks ''boom'' 800 100 = pre @ t' # post \<and>
      (\<forall>u\<in>set pre. \<exists>v. embed_text example_api u = Inr v) \<and>
      embed_text example_api t' = Inl e' \<and>
      build_or_load_index example_api False (cold_world (Some ''boom''))
        = (Inl e', cold_world (Some ''boom'')))"
proof -
  have a: "False \<or> (index_cache (cold_world (Some ''boom'')) = None
             \<and> index_file (cold_world (Some ''boom'')) = None)"
    and b: "knowledge_file (cold_world (Some ''boom'')) = Some ''boom''"
    by (simp_all add: cold_world_def)
  have c: "''boom'' \<in> set (split_text_into_chunks ''boom'' 800 100)"
    by (simp add: example_chunks)
  have d: "embed_text example_api ''boom'' = Inl (ProviderError ''rate limit'')"
    by (simp add: embed_text_def example_api_def)
  from build_aborts_on_embedding_failure [OF a b c d] a b c d show ?thesis by blast
qed

text \<open>
  Claim C4. After a build, the persisted file holds the serialized chunk list, and
  deserializing it gives back the built chunk list, equal in every id, text and
  embedding: a call that finds no cache and loads this file returns the same index and
  ends in the same world as the build.
\<close>

theorem persist_load_roundtrip:
  assumes "force_rebuild \<or> (index_cache s = None \<and> index_file s = None)"
    and "build_or_load_index create force_rebuild s = (Inr index, s')"
  shows "index_file s' = Some (Dumped (JArr (map item_of_chunk index))) \<and>
         load_index (Dumped (JArr (map item_of_chunk index))) = Inr index \<and>
         build_or_load_index create False (s'\<lparr>index_cache := None\<rparr>) = (Inr index, s')"
proof -
  from assms have s': "s' = s\<lparr>index_file := Some (Dumped (JArr (map item_of_chunk index))),
                  index_cache := Some index\<rparr>"
    by (auto simp: build_branch split: sum.splits)
  then show ?thesis
    by (simp add: build_or_load_index_def load_index_dumped)
qed

theorem persist_load_roundtrip_witness:
  "(index_cache (cold_world (Some ''hola mundo'')) = None
      \<and> index_file (cold_world (Some ''hola mundo'')) = None) \<and>
   build_or_load_index example_api False (cold_world (Some ''hola mundo''))
     = (Inr [\<lparr>chunk_id = 0, chunk_text = ''hola mundo'', embedding = [0, 1]\<rparr>],
        \<lparr>index_cache = Some [\<lparr>chunk_id = 0, chunk_text = ''hola mundo'', embedding = [0, 1]\<rparr>],
         index_file = Some (Dumped (JArr [JObj [(''id'', JInt 0), (''text'', JStr ''hola mundo''),
                        (''embedding'', JArr [JFloat 0, JFloat 1])]])),
         knowledge_file = Some ''hola mundo''\<rparr>) \<and>
   build_or_load_index example_api False
     \<lparr>index_cache = None,
      index_file = Some (Dumped (JArr [JObj [(''id'', JInt 0), (''text'', JStr ''hola mundo''),
                        (''embedding'', JArr [JFloat 0, JFloat 1])]])),
      knowledge_file = Some ''hola mundo''\<rparr>
     = (Inr [\<lparr>chunk_id = 0, chunk_text = ''hola mundo'', embedding = [0, 1]\<rparr>],
        \<lparr>index_cache = Some [\<lparr>chunk_id = 0, chunk_text = ''hola mundo'', embedding = [0, 1]\<rparr>],
         index_file = Some (Dumped (JArr [JObj [(''id'', JInt 0), (''text'', JStr ''hola mundo''),
                        (''embedding'', JArr [JFloat 0, JFloat 1])]])),
         knowledge_file = Some ''hola mundo''\<rparr>)"
proof -
  let ?index = "[\<lparr>chunk_id = 0, chunk_text = ''hola mundo'', embedding = [0, 1]\<rparr>]"
  let ?file = "Dumped (JArr [JObj [(''id'', JInt 0), (''text'', JStr ''hola mundo''),
                        (''embedding'', JArr [JFloat 0, JFloat 1])]])"
  let ?s' = "\<lparr>index_cache = Some ?index, index_file = Some ?file,
              knowledge_file = Some ''hola mundo''\<rparr>"
  have a: "False \<or> (index_cache (cold_world (Some ''hola mundo'')) = None
             \<and> index_file (cold_world (Some ''hola mundo'')) = None)"
    by (simp add: cold_world_def)
  have b: "build_or_load_index example_api False (cold_world (Some ''hola mundo'')) = (Inr ?index, ?s')"
    by (simp add: build_or_load_index_def cold_world_def load_knowledge_text_def example_chunks
        embed_text_def example_api_def item_of_chunk_def)
  from persist_load_roundtrip [OF a b] a b show ?thesis by (simp add: item_of_chunk_def)
qed

text \<open>
  Claim C5. When a build is due (the rebuild is forced, or there is neither a cache nor a
  persisted index file) and the knowledge document is absent, the call raises the
  not-found error and leaves the world as it was: no index file is written. The retriever
  and the answer composer, which obtain the index without forcing, let the error through.
\<close>

theorem build_missing_knowledge:
  assumes "force_rebuild \<or> (index_cache s = None \<and> index_file s = None)"
    and "knowledge_file s = None"
  shows "build_or_load_index create force_rebuild s = (Inl FileNotFoundError, s) \<and>
         (\<not> force_rebuild \<longrightarrow>
            retrieve_relevant_chunks create question k s = (Inl FileNotFoundError, s) \<and>
            answer_question create chat question k s = (Inl FileNotFoundError, s))"
proof -
  from assms have b: "build_or_load_index create force_rebuild s = (Inl FileNotFoundError, s)"
    by (simp add: build_branch load_knowledge_text_def)
  show ?thesis
  proof (intro conjI impI)
    show "build_or_load_index create force_rebuild s = (Inl FileNotFoundError, s)" by (rule b)
  next
    assume "\<not> force_rebuild"
    with b have "build_or_load_index create False s = (Inl FileNotFoundError, s)" by simp
    then show r: "retrieve_relevant_chunks create question k s = (Inl FileNotFoundError, s)"
      by (rule retrieve_propagates)
    then show "answer_question create chat question k s = (Inl FileNotFoundError, s)"
      by (rule answer_propagates)
  qed
qed

theorem build_missing_knowledge_witness:
  "(index_cache (cold_world None) = None \<and> index_file (cold_world None) = None) \<and>
   knowledge_file (cold_world None) = None \<and>
   build_or_load_index example_api False (cold_world None) = (Inl FileNotFoundError, cold_world None) \<and>
   retrieve_relevant_chunks example_api ''q'' 3 (cold_world None)
     = (Inl FileNotFoundError, cold_world None) \<and>
   answer_question example_api silent_chat ''q'' 3 (cold_world None)
     = (Inl FileNotFoundError, cold_world None) \<and>
   index_file (snd (build_or_load_index example_api False (cold_world None))) = None"
proof -
  have a: "False \<or> (index_cache (cold_world None) = None \<and> index_file (cold_world None) = None)"
    and b: "knowledge_file (cold_world None) = None"
    by (simp_all add: cold_world_def)
  from build_missing_knowledge [OF a b, of example_api "''q''" 3 silent_chat] a b
  show ?thesis by simp
qed

subsection \<open>The answer composer\<close>

text \<open>
  Claim C8. Once retrieval has succeeded and the generation capability has returned: if
  it returned no choice, the answer is the empty string and no error is raised; if it
  returned a choice with a text, the answer is that text with leading and trailing
  whitespace stripped.
\<close>

theorem answer_text_trimmed_or_empty:
  assumes "retrieve_relevant_chunks create question k s = (Inr top_chunks, s')"
    and "chat CHAT_MODEL [(''system'', system_prompt),
            (''user'', user_prompt (context_of top_chunks) question)] (2 / 10) = Inr c"
  shows "(choices c = [] \<longrightarrow>
            (\<exists>r. answer_question create chat question k s = (Inr r, s') \<and> answer r = [])) \<and>
         (\<forall>content rest. choices c = Some content # rest \<longrightarrow>
            (\<exists>r. answer_question create chat question k s = (Inr r, s') \<and>
                 answer r = py_strip content))"
  using assms by (simp add: answer_question_def answer_text_of_def)

theorem answer_text_trimmed_or_empty_witness:
  "retrieve_relevant_chunks example_api ''q'' 2 example_world
     = (Inr [\<lparr>chunk_id = 1, chunk_text = ''b'', embedding = [1, 0]\<rparr>,
             \<lparr>chunk_id = 0, chunk_text = ''a'', embedding = [0, 1]\<rparr>], example_world) \<and>
   (\<exists>r. answer_question example_api silent_chat ''q'' 2 example_world = (Inr r, example_world)
        \<and> answer r = []) \<and>
   (\<exists>r. answer_question example_api padded_chat ''q'' 2 example_world = (Inr r, example_world)
        \<and> answer r = ''Hola.'')"
proof -
  let ?top = "[\<lparr>chunk_id = 1, chunk_text = ''b'', embedding = [1, 0]\<rparr>,
               \<lparr>chunk_id = 0, chunk_text = ''a'', embedding = [0, 1]\<rparr>]"
  have s: "silent_chat CHAT_MODEL [(''system'', system_prompt),
            (''user'', user_prompt (context_of ?top) ''q'')] (2 / 10)
           = Inr \<lparr>choices = [], usage = None\<rparr>"
    by (simp add: silent_chat_def)
  have p: "padded_chat CHAT_MODEL [(''system'', system_prompt),
            (''user'', user_prompt (context_of ?top) ''q'')] (2 / 10)
           = Inr \<lparr>choices = [Some ''  Hola.  ''],
                 usage = Some \<lparr>prompt_tokens = Some 7, completion_tokens = Some 2,
                               total_tokens = Some 9\<rparr>\<rparr>"
    by (simp add: padded_chat_def)
  have strip: "py_strip ''  Hola.  '' = ''Hola.''"
    by (simp add: py_strip_def is_space_def)
  from answer_text_trimmed_or_empty [where chat = silent_chat, OF example_retrieve s]
    answer_text_trimmed_or_empty [where chat = padded_chat, OF example_retrieve p]
    example_retrieve strip
  show ?thesis by simp
qed

end
